theory Spec2Isabelle
  imports Main
begin

section \<open>The transcription bot of \<^verbatim>\<open>main.py\<close>\<close>

text \<open>
  The two handlers of \<^verbatim>\<open>main.py\<close>, \<^verbatim>\<open>handle_video\<close> and
  \<^verbatim>\<open>process_language_choice\<close>, are embedded as functions over an explicit session
  (the \<^verbatim>\<open>FSMContext\<close> of one user), an explicit set of files on disk, and a trace of
  the calls made to the outside (chat transport, file system, recogniser, translator).
  What the outside answers is not decided by the program: it is a parameter, the
  \<open>world\<close>, that gives for every external call either a value or an exception.
\<close>

subsection \<open>Exceptions\<close>

text \<open>
  \<open>IndexError\<close> is what \<^verbatim>\<open>callback.data.split('_')[1]\<close> raises; \<open>AttributeError\<close> is
  what \<^verbatim>\<open>video_clip.audio.write_audiofile\<close> raises on a clip whose \<^verbatim>\<open>audio\<close> is
  \<^verbatim>\<open>None\<close>; \<open>Error d\<close> is any other \<^verbatim>\<open>Exception\<close>, with its description.
  All of them are instances of \<^verbatim>\<open>Exception\<close>, so \<^verbatim>\<open>except Exception\<close> catches each.
\<close>

datatype exn = IndexError | AttributeError | Error string

subsection \<open>The session: \<^verbatim>\<open>FSMContext\<close>\<close>

text \<open>
  \<open>Idle\<close> is the state \<^verbatim>\<open>None\<close> of the framework, \<open>WaitingForLanguageChoice\<close> the one
  state of \<^verbatim>\<open>TranscriptionStates\<close>. The data of a session is a dictionary.
\<close>

datatype fsm_state = Idle | WaitingForLanguageChoice

record session =
  fsm :: fsm_state
  data :: "string \<rightharpoonup> string"

definition update_data :: "string \<Rightarrow> string \<Rightarrow> session \<Rightarrow> session" where
  "update_data k v s = s\<lparr>data := (data s)(k \<mapsto> v)\<rparr>"

definition set_state :: "fsm_state \<Rightarrow> session \<Rightarrow> session" where
  "set_state st s = s\<lparr>fsm := st\<rparr>"

definition get_data :: "session \<Rightarrow> (string \<rightharpoonup> string)" where
  "get_data s = data s"

definition clear :: "session \<Rightarrow> session" where
  "clear s = s\<lparr>fsm := Idle, data := Map.empty\<rparr>"

subsection \<open>Messages and calls to the outside\<close>

text \<open>
  Natural-language text (a transcript, a translation) is a Python \<^verbatim>\<open>str\<close>: a list of
  Unicode code points. Identifiers, paths and callback data are \<open>string\<close>s.
\<close>

type_synonym utext = "nat list"

text \<open>
  The texts the bot sends, one constructor for each literal of the source:
  \<open>TooBig\<close> is the reply of line 61, \<open>AskLanguage\<close> the question of line 68 (sent with
  \<^verbatim>\<open>language_keyboard\<close>), \<open>Accepted lang\<close> the notice of line 90, \<open>NoSpeech\<close> the text
  of line 113, \<open>Response lang transcribed translated\<close> the \<^verbatim>\<open>response_text\<close> of
  lines 119 to 122 and \<open>Failed\<close> the text of line 127.
\<close>

datatype message =
    TooBig
  | AskLanguage
  | Accepted string
  | NoSpeech
  | Response string utext utext
  | Failed

text \<open>Every call to the outside, with its arguments, in the order the code makes them.\<close>

datatype event =
    Reply message
  | Answer
  | EditText message
  | GetFile "string option"
  | MakeDirs string
  | DownloadFile string string
  | OpenClip string
  | WriteAudioFile string
  | CloseClip
  | Transcribe string string
  | NewTranslator string string
  | Translate utext
  | Print exn
  | Remove string

text \<open>
  The answers of the outside. A call that writes a file (\<open>download_file\<close>,
  \<open>write_audiofile\<close>) also says whether the destination exists afterwards: a failed
  call may leave a partial file behind. \<open>VideoFileClip\<close> returns whether the clip has
  an audio track (its \<^verbatim>\<open>audio\<close> attribute is not \<^verbatim>\<open>None\<close>). \<open>remove\<close> is
  \<^verbatim>\<open>os.remove\<close>, which can raise on a path that exists (a file still held open by a
  clip that was never closed, a directory, a missing permission).
\<close>

record world =
  reply :: "message \<Rightarrow> exn + unit"
  answer :: "exn + unit"
  edit_text :: "message \<Rightarrow> exn + unit"
  get_file :: "string option \<Rightarrow> exn + string"
  makedirs :: "string \<Rightarrow> exn + unit"
  download_file :: "string \<Rightarrow> string \<Rightarrow> (exn + unit) \<times> bool"
  VideoFileClip :: "string \<Rightarrow> exn + bool"
  write_audiofile :: "string \<Rightarrow> (exn + unit) \<times> bool"
  close_clip :: "exn + unit"
  transcribe :: "string \<Rightarrow> string \<Rightarrow> exn + utext"
  GoogleTranslator :: "string \<Rightarrow> string \<Rightarrow> exn + unit"
  translate :: "utext \<Rightarrow> exn + utext"
  remove :: "string \<Rightarrow> exn + unit"

subsection \<open>\<^verbatim>\<open>handle_video\<close>\<close>

record video =
  file_id :: string
  file_size :: int

text \<open>
  The result is what the handler raises or returns, the session afterwards and the
  calls made. An exception of \<^verbatim>\<open>message.reply\<close> leaves the handler at that line.
\<close>

definition handle_video :: "world \<Rightarrow> video \<Rightarrow> session \<Rightarrow> (exn + unit) \<times> session \<times> event list" where
  "handle_video w v s =
     (if file_size v > 20 * 1024 * 1024 then
        (reply w TooBig, s, [Reply TooBig])
      else
        let s1 = update_data ''video_file_id'' (file_id v) s in
        (case reply w AskLanguage of
           Inl e \<Rightarrow> (Inl e, s1, [Reply AskLanguage])
         | Inr u \<Rightarrow> (Inr (), set_state WaitingForLanguageChoice s1, [Reply AskLanguage])))"

subsection \<open>Python's \<^verbatim>\<open>str.split\<close>, indexing and \<^verbatim>\<open>str.strip\<close>\<close>

text \<open>
  \<^verbatim>\<open>s.split(sep)\<close> for a separator of one character: the pieces between the
  separators, one more than there are separators, so never an empty list.
\<close>

fun split :: "char \<Rightarrow> string \<Rightarrow> string list" where
  "split sep [] = [] # []"
| "split sep (c # cs) =
     (if c = sep then [] # split sep cs
      else (case split sep cs of [] \<Rightarrow> [c] # [] | p # ps \<Rightarrow> (c # p) # ps))"

text \<open>\<^verbatim>\<open>xs[i]\<close> for an index that is not negative.\<close>

definition item :: "'a list \<Rightarrow> nat \<Rightarrow> exn + 'a" where
  "item xs i = (if i < length xs then Inr (xs ! i) else Inl IndexError)"

text \<open>
  The code points for which \<^verbatim>\<open>str.isspace\<close> holds, which are the ones
  \<^verbatim>\<open>str.strip()\<close> removes from both ends.
\<close>

definition isspace :: "nat \<Rightarrow> bool" where
  "isspace c \<longleftrightarrow>
     (9 \<le> c \<and> c \<le> 13) \<or> (28 \<le> c \<and> c \<le> 32) \<or> c = 133 \<or> c = 160 \<or> c = 5760 \<or>
     (8192 \<le> c \<and> c \<le> 8202) \<or> c = 8232 \<or> c = 8233 \<or> c = 8239 \<or> c = 8287 \<or> c = 12288"

definition strip :: "utext \<Rightarrow> utext" where
  "strip t = rev (dropWhile isspace (rev (dropWhile isspace t)))"

text \<open>What an f-string prints for a value that may be \<^verbatim>\<open>None\<close>.\<close>

definition fmt :: "string option \<Rightarrow> string" where
  "fmt x = (case x of None \<Rightarrow> ''None'' | Some s \<Rightarrow> s)"

subsection \<open>\<^verbatim>\<open>process_language_choice\<close>\<close>

text \<open>
  What the body of the \<^verbatim>\<open>try\<close> statement can change and what the \<^verbatim>\<open>finally\<close> clause
  reads: the two local variables \<^verbatim>\<open>video_path\<close> and \<^verbatim>\<open>audio_path\<close>, the files on disk
  and the calls made so far.
\<close>

record cycle =
  video_path :: "string option"
  audio_path :: "string option"
  files :: "string set"
  trace :: "event list"

type_synonym 'a step = "cycle \<Rightarrow> (exn + 'a) \<times> cycle"

text \<open>Sequencing: an exception ends the sequence and keeps the state reached.\<close>

definition bind :: "'a step \<Rightarrow> ('a \<Rightarrow> 'b step) \<Rightarrow> 'b step" where
  "bind m f = (\<lambda>c. case m c of (Inl e, c') \<Rightarrow> (Inl e, c') | (Inr a, c') \<Rightarrow> f a c')"

text \<open>A call to the outside: recorded, then answered.\<close>

definition call :: "event \<Rightarrow> exn + 'a \<Rightarrow> 'a step" where
  "call ev r = (\<lambda>c. (r, c\<lparr>trace := trace c @ [ev]\<rparr>))"

text \<open>A call that writes the file \<open>dest\<close>.\<close>

definition call_writing :: "event \<Rightarrow> string \<Rightarrow> (exn + 'a) \<times> bool \<Rightarrow> 'a step" where
  "call_writing ev dest r =
     (\<lambda>c. (fst r, c\<lparr>files := (if snd r then insert dest (files c) else files c),
                     trace := trace c @ [ev]\<rparr>))"

definition assign_paths :: "string \<Rightarrow> string \<Rightarrow> unit step" where
  "assign_paths vp ap = (\<lambda>c. (Inr (), c\<lparr>video_path := Some vp, audio_path := Some ap\<rparr>))"

definition raise :: "exn \<Rightarrow> 'a step" where
  "raise e = (\<lambda>c. (Inl e, c))"

text \<open>Lines 96 to 123, the body of the \<^verbatim>\<open>try\<close> statement.\<close>

definition try_body :: "world \<Rightarrow> string \<Rightarrow> string option \<Rightarrow> unit step" where
  "try_body w lang fid =
     bind (call (GetFile fid) (get_file w fid)) (\<lambda>file_path.
     let vp = ''downloads/'' @ fmt fid @ ''.mp4'';
         ap = ''downloads/'' @ fmt fid @ ''.mp3'' in
     bind (assign_paths vp ap) (\<lambda>_.
     bind (call (MakeDirs ''downloads'') (makedirs w ''downloads'')) (\<lambda>_.
     bind (call_writing (DownloadFile file_path vp) vp (download_file w file_path vp)) (\<lambda>_.
     bind (call (OpenClip vp) (VideoFileClip w vp)) (\<lambda>has_audio.
     bind (if has_audio then call_writing (WriteAudioFile ap) ap (write_audiofile w ap)
           else raise AttributeError) (\<lambda>_.
     bind (call CloseClip (close_clip w)) (\<lambda>_.
     bind (call (Transcribe ap lang) (transcribe w ap lang)) (\<lambda>transcribed_text.
     if strip transcribed_text = [] then
       call (EditText NoSpeech) (edit_text w NoSpeech)
     else
       bind (call (NewTranslator lang ''ru'') (GoogleTranslator w lang ''ru'')) (\<lambda>_.
       bind (call (Translate transcribed_text) (translate w transcribed_text)) (\<lambda>translated_text.
       let response_text = Response lang transcribed_text translated_text in
       call (EditText response_text) (edit_text w response_text)))))))))))"

text \<open>Lines 125 to 127, the \<^verbatim>\<open>except Exception as e\<close> clause.\<close>

definition except_clause :: "world \<Rightarrow> exn \<Rightarrow> unit step" where
  "except_clause w e =
     bind (call (Print e) (Inr ())) (\<lambda>_. call (EditText Failed) (edit_text w Failed))"

text \<open>
  Lines 130 and 131: \<^verbatim>\<open>if p and os.path.exists(p): os.remove(p)\<close>. The empty string
  is false in Python, as \<^verbatim>\<open>None\<close> is. When \<^verbatim>\<open>os.remove\<close> raises, the file stays.
\<close>

definition remove_if_exists :: "world \<Rightarrow> string option \<Rightarrow> unit step" where
  "remove_if_exists w p =
     (\<lambda>c. case p of
        None \<Rightarrow> (Inr (), c)
      | Some f \<Rightarrow>
          if f \<noteq> [] \<and> f \<in> files c then
            (case remove w f of
               Inl e \<Rightarrow> (Inl e, c\<lparr>trace := trace c @ [Remove f]\<rparr>)
             | Inr u \<Rightarrow> (Inr (), c\<lparr>files := files c - {f}, trace := trace c @ [Remove f]\<rparr>))
          else (Inr (), c))"

text \<open>
  Lines 128 to 133, the \<^verbatim>\<open>finally\<close> clause: the two removals, then
  \<^verbatim>\<open>state.clear()\<close>. An exception of a removal leaves the clause at that line, so
  what follows it is not run.
\<close>

definition finally_clause :: "world \<Rightarrow> session \<Rightarrow> cycle \<Rightarrow> (exn + unit) \<times> session \<times> cycle" where
  "finally_clause w s c =
     (case remove_if_exists w (video_path c) c of
        (Inl e, c1) \<Rightarrow> (Inl e, s, c1)
      | (Inr u, c1) \<Rightarrow>
          (case remove_if_exists w (audio_path c) c1 of
             (Inl e, c2) \<Rightarrow> (Inl e, s, c2)
           | (Inr u', c2) \<Rightarrow> (Inr (), clear s, c2)))"

text \<open>
  The \<^verbatim>\<open>try\<close> statement of lines 94 to 133: the body; the \<^verbatim>\<open>except\<close> clause when the
  body raises, whose own exception is then pending; the \<^verbatim>\<open>finally\<close> clause in every
  case. An exception of the \<^verbatim>\<open>finally\<close> clause replaces what was pending; otherwise
  the statement ends as the body or the \<^verbatim>\<open>except\<close> clause did.
\<close>

definition try_statement ::
  "world \<Rightarrow> string \<Rightarrow> string option \<Rightarrow> session \<Rightarrow> cycle \<Rightarrow> (exn + unit) \<times> session \<times> cycle" where
  "try_statement w lang fid s c =
     (let (r1, c1) = try_body w lang fid c;
          (r2, c2) = (case r1 of Inr u \<Rightarrow> (Inr (), c1) | Inl e \<Rightarrow> except_clause w e c1);
          (r3, s3, c3) = finally_clause w s c2
      in (case r3 of Inl e \<Rightarrow> (Inl e, s3, c3) | Inr u \<Rightarrow> (r2, s3, c3)))"

text \<open>
  The handler: the callback data, the session and the files on disk go in; what the
  handler raises or returns, the session afterwards, and the files and the calls made
  come out. Lines 80 to 90 run before the \<^verbatim>\<open>try\<close> statement, so an exception there
  leaves the handler at once.
\<close>

definition start_cycle :: "string set \<Rightarrow> event list \<Rightarrow> cycle" where
  "start_cycle fs tr = \<lparr>video_path = None, audio_path = None, files = fs, trace = tr\<rparr>"

definition process_language_choice ::
  "world \<Rightarrow> string \<Rightarrow> session \<Rightarrow> string set \<Rightarrow> (exn + unit) \<times> session \<times> cycle" where
  "process_language_choice w cb_data s fs =
     (case item (split CHR ''_'' cb_data) 1 of
        Inl e \<Rightarrow> (Inl e, s, start_cycle fs [])
      | Inr lang \<Rightarrow>
          let user_data = get_data s;
              fid = user_data ''video_file_id'' in
          (case answer w of
             Inl e \<Rightarrow> (Inl e, s, start_cycle fs [Answer])
           | Inr u \<Rightarrow>
               (case edit_text w (Accepted lang) of
                  Inl e \<Rightarrow> (Inl e, s, start_cycle fs [Answer, EditText (Accepted lang)])
                | Inr u' \<Rightarrow>
                    try_statement w lang fid s
                      (start_cycle fs [Answer, EditText (Accepted lang)]))))"

subsection \<open>What a run shows\<close>

text \<open>
  Readings of a trace: the texts put into the edited message, in order; whether a call
  goes to the translator; whether a call removes a file.
\<close>

fun edits :: "event list \<Rightarrow> message list" where
  "edits [] = []"
| "edits (EditText m # evs) = m # edits evs"
| "edits (ev # evs) = edits evs"

fun is_translation :: "event \<Rightarrow> bool" where
  "is_translation (NewTranslator src tgt) = True"
| "is_translation (Translate t) = True"
| "is_translation ev = False"

fun is_removal :: "event \<Rightarrow> bool" where
  "is_removal (Remove f) = True"
| "is_removal ev = False"

text \<open>
  The wording "the substring after the first underscore", written down as it reads, to
  be compared with what \<^verbatim>\<open>split('_')[1]\<close> gives.
\<close>

definition after_first_underscore :: "string \<Rightarrow> string" where
  "after_first_underscore d = tl (dropWhile (\<lambda>c. c \<noteq> CHR ''_'') d)"

text \<open>A session that waits for a language holds a file reference.\<close>

definition has_reference :: "session \<Rightarrow> bool" where
  "has_reference s \<longleftrightarrow> (fsm s = WaitingForLanguageChoice \<longrightarrow> data s ''video_file_id'' \<noteq> None)"

subsection \<open>Assertions on steps\<close>

text \<open>
  \<open>emits P m\<close>: the step \<open>m\<close> only appends to the trace, and every call it appends
  satisfies \<open>P\<close>. \<open>keeps I m\<close>: the step \<open>m\<close> preserves \<open>I\<close>, whether it raises
  or returns.
\<close>

definition emits :: "(event \<Rightarrow> bool) \<Rightarrow> 'a step \<Rightarrow> bool" where
  "emits P m \<longleftrightarrow> (\<forall>c. \<exists>evs. trace (snd (m c)) = trace c @ evs \<and> (\<forall>ev\<in>set evs. P ev))"

definition keeps :: "(cycle \<Rightarrow> bool) \<Rightarrow> 'a step \<Rightarrow> bool" where
  "keeps I m \<longleftrightarrow> (\<forall>c. I c \<longrightarrow> I (snd (m c)))"

subsection \<open>Concrete inputs\<close>

text \<open>
  A world in which every call succeeds: the transcript is \<^verbatim>\<open>Hi\<close> and its
  translation two Cyrillic letters. The other worlds used below differ from it in one
  answer; in \<open>locked\<close> the clip has no audio track and no file can be removed.
\<close>

definition calm :: world where
  "calm =
     \<lparr>reply = (\<lambda>m. Inr ()),
      answer = Inr (),
      edit_text = (\<lambda>m. Inr ()),
      get_file = (\<lambda>fid. Inr ''videos/file_7.mp4''),
      makedirs = (\<lambda>d. Inr ()),
      download_file = (\<lambda>src dest. (Inr (), True)),
      VideoFileClip = (\<lambda>p. Inr True),
      write_audiofile = (\<lambda>p. (Inr (), True)),
      close_clip = Inr (),
      transcribe = (\<lambda>p lang. Inr [72, 105]),
      GoogleTranslator = (\<lambda>src tgt. Inr ()),
      translate = (\<lambda>t. Inr [1061, 1080]),
      remove = (\<lambda>p. Inr ())\<rparr>"

definition idle :: session where
  "idle = \<lparr>fsm = Idle, data = Map.empty\<rparr>"

definition pending :: session where
  "pending = \<lparr>fsm = WaitingForLanguageChoice, data = [''video_file_id'' \<mapsto> ''abc'']\<rparr>"

definition small_video :: video where
  "small_video = \<lparr>file_id = ''xyz'', file_size = 5 * 1024 * 1024\<rparr>"

definition big_video :: video where
  "big_video = \<lparr>file_id = ''xyz'', file_size = 25 * 1024 * 1024\<rparr>"



definition silent :: world where
  "silent = calm\<lparr>transcribe := (\<lambda>p lang. Inr [32, 10])\<rparr>"

definition strict :: world where
  "strict = calm\<lparr>get_file :=
     (\<lambda>fid. case fid of None \<Rightarrow> Inl (Error ''validation'') | Some f \<Rightarrow> Inr ''videos/file_7.mp4'')\<rparr>"

definition deaf :: world where
  "deaf = calm\<lparr>answer := Inl (Error ''timeout'')\<rparr>"

definition locked :: world where
  "locked = calm\<lparr>VideoFileClip := (\<lambda>p. Inr False), remove := (\<lambda>p. Inl (Error ''in use''))\<rparr>"

definition orphan :: session where
  "orphan = \<lparr>fsm = WaitingForLanguageChoice, data = Map.empty\<rparr>"

section \<open>Properties of \<^verbatim>\<open>handle_video\<close>\<close>

text \<open>
  Claim C1. A video whose declared size is more than 20 MiB gets the size rejection
  and nothing else: that reply is the only call made (nothing is fetched or
  downloaded), nothing is stored and the session is the one before, so an idle
  session stays idle. A video of at most 20 MiB has its identifier stored under
  \<^verbatim>\<open>video_file_id\<close> and the language question is the one call made.
\<close>

theorem handle_video_size_limit:
  "(file_size v > 20 * 1024 * 1024 \<longrightarrow>
      snd (handle_video w v s) = (s, [Reply TooBig]) \<and>
      (fsm s = Idle \<longrightarrow> fsm (fst (snd (handle_video w v s))) = Idle)) \<and>
   (file_size v \<le> 20 * 1024 * 1024 \<longrightarrow>
      data (fst (snd (handle_video w v s))) ''video_file_id'' = Some (file_id v) \<and>
      snd (snd (handle_video w v s)) = [Reply AskLanguage])"
  by (simp add: handle_video_def update_data_def set_state_def Let_def split: sum.split)

theorem handle_video_size_limit_witness:
  "file_size big_video > 20 * 1024 * 1024 \<and>
   file_size small_video \<le> 20 * 1024 * 1024 \<and>
   snd (handle_video calm big_video idle) = (idle, [Reply TooBig]) \<and>
   fsm (fst (snd (handle_video calm big_video idle))) = Idle \<and>
   data (fst (snd (handle_video calm small_video idle))) ''video_file_id'' = Some ''xyz'' \<and>
   snd (snd (handle_video calm small_video idle)) = [Reply AskLanguage]"
  using handle_video_size_limit [of big_video calm idle]
        handle_video_size_limit [of small_video calm idle]
  by (simp add: big_video_def small_video_def idle_def)

text \<open>
  Claim C5. For a video of at most 20 MiB, once the handler has run to its end (the
  reply with the language question did not raise), the session waits for the language
  and the stored reference is the identifier of this video. The reference is stored
  before the reply is sent, so it is there in either case.
\<close>

theorem handle_video_accepts:
  assumes "file_size v \<le> 20 * 1024 * 1024"
  shows "data (fst (snd (handle_video w v s))) ''video_file_id'' = Some (file_id v) \<and>
         (fst (handle_video w v s) = Inr () \<longrightarrow>
            fsm (fst (snd (handle_video w v s))) = WaitingForLanguageChoice) \<and>
         (fst (handle_video w v s) = Inr ()) = (reply w AskLanguage = Inr ())"
  using assms
  by (simp add: handle_video_def update_data_def set_state_def Let_def split: sum.split)

theorem handle_video_accepts_witness:
  "file_size small_video \<le> 20 * 1024 * 1024 \<and>
   fst (handle_video calm small_video idle) = Inr () \<and>
   data (fst (snd (handle_video calm small_video idle))) ''video_file_id'' = Some ''xyz'' \<and>
   fsm (fst (snd (handle_video calm small_video idle))) = WaitingForLanguageChoice"
proof -
  have small: "file_size small_video \<le> 20 * 1024 * 1024"
    by (simp add: small_video_def)
  have "reply calm AskLanguage = Inr ()"
    by (simp add: calm_def)
  with handle_video_accepts [OF small, of calm idle] small show ?thesis
    by (simp add: small_video_def)
qed

text \<open>
  Claim C7. A video of at most 20 MiB that arrives while another one is pending
  replaces the stored reference: the session data is the old dictionary with the key
  \<^verbatim>\<open>video_file_id\<close> set to the new identifier, so the key holds the new identifier
  only, no other key appears, and the old identifier is gone unless the two are equal.
\<close>

theorem handle_video_overwrites:
  assumes "file_size v \<le> 20 * 1024 * 1024"
    and "fsm s = WaitingForLanguageChoice"
    and "data s ''video_file_id'' = Some old"
  shows "data (fst (snd (handle_video w v s))) = (data s)(''video_file_id'' \<mapsto> file_id v) \<and>
         dom (data (fst (snd (handle_video w v s)))) = dom (data s) \<and>
         fsm (fst (snd (handle_video w v s))) = WaitingForLanguageChoice \<and>
         (old \<noteq> file_id v \<longrightarrow> data (fst (snd (handle_video w v s))) ''video_file_id'' \<noteq> Some old)"
  using assms
  by (auto simp add: handle_video_def update_data_def set_state_def Let_def split: sum.split)

theorem handle_video_overwrites_witness:
  "file_size small_video \<le> 20 * 1024 * 1024 \<and>
   fsm pending = WaitingForLanguageChoice \<and>
   data pending ''video_file_id'' = Some ''abc'' \<and>
   data (fst (snd (handle_video calm small_video pending))) = [''video_file_id'' \<mapsto> ''xyz''] \<and>
   data (fst (snd (handle_video calm small_video pending))) ''video_file_id'' \<noteq> Some ''abc''"
proof -
  have a: "file_size small_video \<le> 20 * 1024 * 1024"
    by (simp add: small_video_def)
  have b: "fsm pending = WaitingForLanguageChoice"
    by (simp add: pending_def)
  have c: "data pending ''video_file_id'' = Some ''abc''"
    by (simp add: pending_def)
  from handle_video_overwrites [OF a b c, of calm] a b c show ?thesis
    by (simp add: small_video_def pending_def)
qed

text \<open>
  Claim C9. A video of more than 20 MiB writes nothing to the session, whatever the
  reply does: the session afterwards is the session before. A session that waited for
  a language with a stored reference still waits, with the same reference.
\<close>

theorem handle_video_rejection_frame:
  assumes "file_size v > 20 * 1024 * 1024"
  shows "fst (snd (handle_video w v s)) = s \<and>
         (fsm s = WaitingForLanguageChoice \<and> data s ''video_file_id'' = Some r \<longrightarrow>
            fsm (fst (snd (handle_video w v s))) = WaitingForLanguageChoice \<and>
            data (fst (snd (handle_video w v s))) ''video_file_id'' = Some r)"
  using assms by (simp add: handle_video_def)

theorem handle_video_rejection_frame_witness:
  "file_size big_video > 20 * 1024 * 1024 \<and>
   fst (snd (handle_video calm big_video pending)) = pending \<and>
   fsm (fst (snd (handle_video calm big_video pending))) = WaitingForLanguageChoice \<and>
   data (fst (snd (handle_video calm big_video pending))) ''video_file_id'' = Some ''abc''"
proof -
  have a: "file_size big_video > 20 * 1024 * 1024"
    by (simp add: big_video_def)
  from handle_video_rejection_frame [OF a, of calm pending "''abc''"] a show ?thesis
    by (simp add: pending_def)
qed

section \<open>Facts about the string functions and the readings\<close>

lemma split_unfold:
  "split sep d =
     takeWhile (\<lambda>c. c \<noteq> sep) d #
       (if sep \<in> set d then split sep (tl (dropWhile (\<lambda>c. c \<noteq> sep) d)) else [])"
proof (induction d)
  case Nil
  show ?case by simp
next
  case (Cons c cs)
  show ?case
  proof (cases "c = sep")
    case True
    then show ?thesis by simp
  next
    case False
    with Cons show ?thesis by (auto split: list.split)
  qed
qed

lemma item_split_no_sep: "sep \<notin> set d \<Longrightarrow> item (split sep d) 1 = Inl IndexError"
  by (subst split_unfold) (simp add: item_def)

lemma item_split_sep:
  "sep \<in> set d \<Longrightarrow>
   item (split sep d) 1 = Inr (takeWhile (\<lambda>c. c \<noteq> sep) (tl (dropWhile (\<lambda>c. c \<noteq> sep) d)))"
  apply (subst split_unfold)
  apply (subst split_unfold)
  apply (simp add: item_def)
  done

lemma strip_Nil_iff: "strip t = [] \<longleftrightarrow> (\<forall>c\<in>set t. isspace c)"
proof
  assume "strip t = []"
  then have a: "\<forall>c\<in>set (dropWhile isspace t). isspace c"
    by (simp add: strip_def dropWhile_eq_Nil_conv)
  have "dropWhile isspace t = []"
  proof (rule ccontr)
    assume n: "dropWhile isspace t \<noteq> []"
    then have "\<not> isspace (hd (dropWhile isspace t))"
      by (rule hd_dropWhile)
    moreover from n have "hd (dropWhile isspace t) \<in> set (dropWhile isspace t)"
      by (rule hd_in_set)
    ultimately show False using a by blast
  qed
  then show "\<forall>c\<in>set t. isspace c"
    by (simp add: dropWhile_eq_Nil_conv)
next
  assume "\<forall>c\<in>set t. isspace c"
  then show "strip t = []"
    by (auto simp add: strip_def dest: set_dropWhileD)
qed

lemma edits_append: "edits (xs @ ys) = edits xs @ edits ys"
  by (induction xs rule: edits.induct) simp_all

lemma edits_removals: "\<forall>ev\<in>set evs. is_removal ev \<Longrightarrow> edits evs = []"
  by (induction evs rule: edits.induct) simp_all

section \<open>Rules for steps\<close>

lemmas step_defs =
  bind_def call_def call_writing_def assign_paths_def raise_def

lemmas run_defs =
  process_language_choice_def try_statement_def try_body_def except_clause_def
  finally_clause_def remove_if_exists_def start_cycle_def step_defs item_def get_data_def
  clear_def fmt_def Let_def

lemma bind_call_returns:
  "r = Inr a \<Longrightarrow> bind (call ev r) f c = f a (c\<lparr>trace := trace c @ [ev]\<rparr>)"
  by (simp add: bind_def call_def)

lemma bind_call_raises:
  "r = Inl e \<Longrightarrow> bind (call ev r) f c = (Inl e, c\<lparr>trace := trace c @ [ev]\<rparr>)"
  by (simp add: bind_def call_def)

lemma bind_call_writing_returns:
  "fst r = Inr a \<Longrightarrow>
   bind (call_writing ev dest r) f c =
     f a (c\<lparr>files := (if snd r then insert dest (files c) else files c),
            trace := trace c @ [ev]\<rparr>)"
  by (simp add: bind_def call_writing_def)

lemma bind_assign_paths_eq:
  "bind (assign_paths vp ap) f c = f () (c\<lparr>video_path := Some vp, audio_path := Some ap\<rparr>)"
  by (simp add: bind_def assign_paths_def)

lemma emits_bind:
  assumes "emits P m" and "\<And>a c. fst (m c) = Inr a \<Longrightarrow> emits P (f a)"
  shows "emits P (bind m f)"
  unfolding emits_def
proof
  fix c
  obtain r c1 where m: "m c = (r, c1)" by (cases "m c")
  from assms(1) m obtain evs1 where e1: "trace c1 = trace c @ evs1" "\<forall>ev\<in>set evs1. P ev"
    unfolding emits_def by (metis snd_conv)
  show "\<exists>evs. trace (snd (bind m f c)) = trace c @ evs \<and> (\<forall>ev\<in>set evs. P ev)"
  proof (cases r)
    case (Inl e)
    with m e1 show ?thesis by (simp add: bind_def)
  next
    case (Inr a)
    with m have "fst (m c) = Inr a" by simp
    then have "emits P (f a)" by (rule assms(2))
    then obtain evs2 where e2: "trace (snd (f a c1)) = trace c1 @ evs2" "\<forall>ev\<in>set evs2. P ev"
      unfolding emits_def by blast
    with e1 have "trace (snd (f a c1)) = trace c @ (evs1 @ evs2) \<and> (\<forall>ev\<in>set (evs1 @ evs2). P ev)"
      by auto
    with m Inr show ?thesis by (simp add: bind_def)
  qed
qed

lemma emits_call: "P ev \<Longrightarrow> emits P (call ev r)"
  by (simp add: emits_def call_def)

lemma emits_call_writing: "P ev \<Longrightarrow> emits P (call_writing ev dest r)"
  by (simp add: emits_def call_writing_def)

lemma emits_assign_paths: "emits P (assign_paths vp ap)"
  by (simp add: emits_def assign_paths_def)

lemma emits_raise: "emits P (raise e)"
  by (simp add: emits_def raise_def)

lemma emits_if: "(b \<Longrightarrow> emits P m) \<Longrightarrow> (\<not> b \<Longrightarrow> emits P n) \<Longrightarrow> emits P (if b then m else n)"
  by simp

lemma fst_call: "fst (call ev r c) = r"
  by (simp add: call_def)

lemma bind_call_emits:
  assumes "\<And>a. emits P (f a)"
  shows "\<exists>evs. trace (snd (bind (call ev r) f c)) = trace c @ ev # evs \<and> (\<forall>x\<in>set evs. P x)"
proof (cases r)
  case (Inl e)
  then show ?thesis by (simp add: bind_call_raises)
next
  case (Inr a)
  let ?c1 = "c\<lparr>trace := trace c @ [ev]\<rparr>"
  from assms [of a] obtain evs where "trace (snd (f a ?c1)) = trace ?c1 @ evs" "\<forall>x\<in>set evs. P x"
    unfolding emits_def by blast
  with Inr show ?thesis by (simp add: bind_call_returns)
qed

lemma bind_call_member:
  assumes "\<And>a. emits P (f a)"
  shows "ev \<in> set (trace (snd (bind (call ev r) f c)))"
  using bind_call_emits [of P f ev r c, OF assms] by auto

lemma bind_call_writing_member:
  assumes "\<And>a. emits P (f a)"
  shows "ev \<in> set (trace (snd (bind (call_writing ev dest r) f c)))"
proof (cases "fst r")
  case (Inl e)
  then show ?thesis by (simp add: bind_def call_writing_def)
next
  case (Inr a)
  let ?c1 = "c\<lparr>files := (if snd r then insert dest (files c) else files c),
               trace := trace c @ [ev]\<rparr>"
  from assms [of a] obtain evs where "trace (snd (f a ?c1)) = trace ?c1 @ evs"
    unfolding emits_def by blast
  with Inr show ?thesis by (simp add: bind_def call_writing_def)
qed

lemma keeps_bind:
  assumes "keeps I m" and "\<And>a. keeps I (f a)"
  shows "keeps I (bind m f)"
  unfolding keeps_def
proof (intro allI impI)
  fix c
  assume i: "I c"
  obtain r c1 where m: "m c = (r, c1)" by (cases "m c")
  with assms(1) i have i1: "I c1" unfolding keeps_def by (metis snd_conv)
  show "I (snd (bind m f c))"
  proof (cases r)
    case (Inl e)
    with m i1 show ?thesis by (simp add: bind_def)
  next
    case (Inr a)
    from assms(2) [of a] i1 have "I (snd (f a c1))" unfolding keeps_def by blast
    with m Inr show ?thesis by (simp add: bind_def)
  qed
qed

lemma keeps_call: "keeps (\<lambda>c. Q (video_path c) (audio_path c)) (call ev r)"
  by (simp add: keeps_def call_def)

lemma keeps_call_writing: "keeps (\<lambda>c. Q (video_path c) (audio_path c)) (call_writing ev dest r)"
  by (simp add: keeps_def call_writing_def)

lemma keeps_raise: "keeps I (raise e)"
  by (simp add: keeps_def raise_def)

lemma keeps_if: "keeps I m \<Longrightarrow> keeps I n \<Longrightarrow> keeps I (if b then m else n)"
  by simp

lemma bind_assign_paths:
  assumes "keeps (\<lambda>c. video_path c = Some vp \<and> audio_path c = Some ap) (f ())"
  shows "video_path (snd (bind (assign_paths vp ap) f c)) = Some vp \<and>
         audio_path (snd (bind (assign_paths vp ap) f c)) = Some ap"
  using assms by (simp add: keeps_def bind_def assign_paths_def)

section \<open>The body of the \<^verbatim>\<open>try\<close> statement\<close>

text \<open>
  When the lookup raises, the body stops with the two paths unassigned. Otherwise the
  paths are assigned before anything else can raise. The body never prints, never
  removes a file and never sends the failure notice; it calls \<^verbatim>\<open>bot.get_file\<close>
  first. \<open>pipeline_exceptions\<close> lists the stages of the pipeline: an exception of
  the lookup or the download, of the extraction (opening the clip, a clip without
  audio, writing the audio file), of the recognition or of the translation is an
  exception of the body.
\<close>

lemma try_body_lookup_raises:
  "get_file w fid = Inl e \<Longrightarrow>
   try_body w lang fid c = (Inl e, c\<lparr>trace := trace c @ [GetFile fid]\<rparr>)"
  by (simp add: try_body_def step_defs)

lemma try_body_emits:
  assumes "\<And>p. P (GetFile p)" "\<And>d. P (MakeDirs d)" "\<And>a b. P (DownloadFile a b)"
    "\<And>p. P (OpenClip p)" "\<And>p. P (WriteAudioFile p)" "P CloseClip" "\<And>a b. P (Transcribe a b)"
    "P (EditText NoSpeech)"
    "\<And>t. transcribe w (''downloads/'' @ fmt fid @ ''.mp3'') lang = Inr t \<Longrightarrow> strip t \<noteq> [] \<Longrightarrow>
       (\<forall>a b. P (NewTranslator a b)) \<and> (\<forall>t. P (Translate t)) \<and> (\<forall>a b c. P (EditText (Response a b c)))"
  shows "emits P (try_body w lang fid)"
  unfolding try_body_def Let_def
  apply (intro emits_bind emits_call emits_call_writing emits_assign_paths emits_raise emits_if)
  apply (simp_all only: assms fst_call)
  using assms(9) apply blast+
  done

lemma try_body_quiet:
  "emits (\<lambda>ev. ev \<noteq> EditText Failed \<and> (\<forall>x. ev \<noteq> Print x) \<and> \<not> is_removal ev)
     (try_body w lang fid)"
  by (rule try_body_emits) simp_all

lemma try_body_starts:
  "\<exists>evs. trace (snd (try_body w lang fid c)) = trace c @ GetFile fid # evs"
proof -
  have "\<exists>evs. trace (snd (try_body w lang fid c)) = trace c @ GetFile fid # evs \<and>
          (\<forall>x\<in>set evs. True)"
    unfolding try_body_def Let_def
    by (rule bind_call_emits)
       (intro emits_bind emits_call emits_call_writing emits_assign_paths emits_raise emits_if TrueI)
  then show ?thesis by blast
qed

lemma try_body_paths:
  assumes "get_file w fid = Inr p"
  shows "video_path (snd (try_body w lang fid c)) = Some (''downloads/'' @ fmt fid @ ''.mp4'') \<and>
         audio_path (snd (try_body w lang fid c)) = Some (''downloads/'' @ fmt fid @ ''.mp3'')"
  unfolding try_body_def Let_def
  apply (simp only: bind_call_returns [OF assms])
  apply (rule bind_assign_paths)
  apply (intro keeps_bind keeps_call keeps_call_writing keeps_raise keeps_if)
  done

lemma pipeline_exceptions:
  fixes w lang fid c
  defines "vp \<equiv> ''downloads/'' @ fmt fid @ ''.mp4''"
    and "ap \<equiv> ''downloads/'' @ fmt fid @ ''.mp3''"
  shows
    "get_file w fid = Inl e \<Longrightarrow> fst (try_body w lang fid c) = Inl e"
    "get_file w fid = Inr p \<Longrightarrow> makedirs w ''downloads'' = Inr () \<Longrightarrow>
       fst (download_file w p vp) = Inl e \<Longrightarrow> fst (try_body w lang fid c) = Inl e"
    "get_file w fid = Inr p \<Longrightarrow> makedirs w ''downloads'' = Inr () \<Longrightarrow>
       fst (download_file w p vp) = Inr () \<Longrightarrow> VideoFileClip w vp = Inl e \<Longrightarrow>
       fst (try_body w lang fid c) = Inl e"
    "get_file w fid = Inr p \<Longrightarrow> makedirs w ''downloads'' = Inr () \<Longrightarrow>
       fst (download_file w p vp) = Inr () \<Longrightarrow> VideoFileClip w vp = Inr False \<Longrightarrow>
       fst (try_body w lang fid c) = Inl AttributeError"
    "get_file w fid = Inr p \<Longrightarrow> makedirs w ''downloads'' = Inr () \<Longrightarrow>
       fst (download_file w p vp) = Inr () \<Longrightarrow> VideoFileClip w vp = Inr True \<Longrightarrow>
       fst (write_audiofile w ap) = Inl e \<Longrightarrow> fst (try_body w lang fid c) = Inl e"
    "get_file w fid = Inr p \<Longrightarrow> makedirs w ''downloads'' = Inr () \<Longrightarrow>
       fst (download_file w p vp) = Inr () \<Longrightarrow> VideoFileClip w vp = Inr True \<Longrightarrow>
       fst (write_audiofile w ap) = Inr () \<Longrightarrow> close_clip w = Inr () \<Longrightarrow>
       transcribe w ap lang = Inl e \<Longrightarrow> fst (try_body w lang fid c) = Inl e"
    "get_file w fid = Inr p \<Longrightarrow> makedirs w ''downloads'' = Inr () \<Longrightarrow>
       fst (download_file w p vp) = Inr () \<Longrightarrow> VideoFileClip w vp = Inr True \<Longrightarrow>
       fst (write_audiofile w ap) = Inr () \<Longrightarrow> close_clip w = Inr () \<Longrightarrow>
       transcribe w ap lang = Inr t \<Longrightarrow> strip t \<noteq> [] \<Longrightarrow>
       GoogleTranslator w lang ''ru'' = Inl e \<Longrightarrow> fst (try_body w lang fid c) = Inl e"
    "get_file w fid = Inr p \<Longrightarrow> makedirs w ''downloads'' = Inr () \<Longrightarrow>
       fst (download_file w p vp) = Inr () \<Longrightarrow> VideoFileClip w vp = Inr True \<Longrightarrow>
       fst (write_audiofile w ap) = Inr () \<Longrightarrow> close_clip w = Inr () \<Longrightarrow>
       transcribe w ap lang = Inr t \<Longrightarrow> strip t \<noteq> [] \<Longrightarrow>
       GoogleTranslator w lang ''ru'' = Inr () \<Longrightarrow> translate w t = Inl e \<Longrightarrow>
       fst (try_body w lang fid c) = Inl e"
  unfolding vp_def ap_def
  by (simp_all add: try_body_def step_defs Let_def)

section \<open>The \<^verbatim>\<open>except\<close> and \<^verbatim>\<open>finally\<close> clauses\<close>

lemma except_clause_eq:
  "except_clause w e c = (edit_text w Failed, c\<lparr>trace := trace c @ [Print e, EditText Failed]\<rparr>)"
  by (simp add: except_clause_def bind_def call_def)

lemma remove_if_exists_trace:
  "\<exists>evs. trace (snd (remove_if_exists w p c)) = trace c @ evs \<and> (\<forall>ev\<in>set evs. is_removal ev)"
  by (simp add: remove_if_exists_def split: option.split sum.split)

lemma finally_clause_trace:
  "\<exists>evs. trace (snd (snd (finally_clause w s c))) = trace c @ evs \<and>
         (\<forall>ev\<in>set evs. is_removal ev)"
proof -
  obtain r1 c1 where one: "remove_if_exists w (video_path c) c = (r1, c1)"
    by (cases "remove_if_exists w (video_path c) c")
  obtain evs1 where a: "trace c1 = trace c @ evs1" "\<forall>ev\<in>set evs1. is_removal ev"
    using remove_if_exists_trace [of w "video_path c" c] one by auto
  show ?thesis
  proof (cases r1)
    case (Inl e)
    with one a show ?thesis by (simp add: finally_clause_def)
  next
    case (Inr u)
    obtain r2 c2 where two: "remove_if_exists w (audio_path c) c1 = (r2, c2)"
      by (cases "remove_if_exists w (audio_path c) c1")
    obtain evs2 where b: "trace c2 = trace c1 @ evs2" "\<forall>ev\<in>set evs2. is_removal ev"
      using remove_if_exists_trace [of w "audio_path c" c1] two by auto
    from a b have c: "trace c2 = trace c @ (evs1 @ evs2) \<and> (\<forall>ev\<in>set (evs1 @ evs2). is_removal ev)"
      by auto
    have "snd (snd (finally_clause w s c)) = c2"
      using one two Inr by (cases r2) (simp_all add: finally_clause_def)
    with c show ?thesis by metis
  qed
qed

lemma finally_clause_no_paths:
  "video_path c = None \<Longrightarrow> audio_path c = None \<Longrightarrow> finally_clause w s c = (Inr (), clear s, c)"
  by (simp add: finally_clause_def remove_if_exists_def)

lemma finally_clause_removes:
  assumes "video_path c = Some vp" and "audio_path c = Some ap" and "vp \<noteq> []" and "ap \<noteq> []"
    and "remove w vp = Inr ()" and "remove w ap = Inr ()"
  shows "fst (finally_clause w s c) = Inr () \<and>
         fst (snd (finally_clause w s c)) = clear s \<and>
         vp \<notin> files (snd (snd (finally_clause w s c))) \<and>
         ap \<notin> files (snd (snd (finally_clause w s c)))"
  using assms by (simp add: finally_clause_def remove_if_exists_def)

lemma finally_clause_session:
  "fst (snd (finally_clause w s c)) = s \<or> fst (snd (finally_clause w s c)) = clear s"
  by (simp add: finally_clause_def split: prod.split sum.split)

lemma try_statement_raises:
  "try_body w lang fid c = (Inl e, c1) \<Longrightarrow>
   try_statement w lang fid s c =
     (case finally_clause w s (c1\<lparr>trace := trace c1 @ [Print e, EditText Failed]\<rparr>) of
        (Inl e', s3, c3) \<Rightarrow> (Inl e', s3, c3)
      | (Inr u, s3, c3) \<Rightarrow> (edit_text w Failed, s3, c3))"
  by (simp add: try_statement_def except_clause_eq split: prod.split sum.split)

lemma try_statement_returns:
  "try_body w lang fid c = (Inr u, c1) \<Longrightarrow>
   try_statement w lang fid s c =
     (case finally_clause w s c1 of
        (Inl e', s3, c3) \<Rightarrow> (Inl e', s3, c3)
      | (Inr u', s3, c3) \<Rightarrow> (Inr (), s3, c3))"
  by (simp add: try_statement_def split: prod.split sum.split)

lemma try_statement_raises_rest:
  "try_body w lang fid c = (Inl e, c1) \<Longrightarrow>
   snd (try_statement w lang fid s c) =
     snd (finally_clause w s (c1\<lparr>trace := trace c1 @ [Print e, EditText Failed]\<rparr>))"
  by (simp add: try_statement_raises split: prod.split sum.split)

lemma try_statement_returns_rest:
  "try_body w lang fid c = (Inr u, c1) \<Longrightarrow>
   snd (try_statement w lang fid s c) = snd (finally_clause w s c1)"
  by (simp add: try_statement_returns split: prod.split sum.split)

lemma try_statement_session:
  "fst (snd (try_statement w lang fid s c)) = s \<or>
   fst (snd (try_statement w lang fid s c)) = clear s"
proof -
  obtain r c1 where body: "try_body w lang fid c = (r, c1)"
    by (cases "try_body w lang fid c")
  show ?thesis
  proof (cases r)
    case (Inl e)
    with body show ?thesis
      using finally_clause_session by (simp add: try_statement_raises_rest)
  next
    case (Inr u)
    with body show ?thesis
      using finally_clause_session by (simp add: try_statement_returns_rest)
  qed
qed

lemma try_statement_trace_raises:
  assumes "try_body w lang fid c = (Inl e, c1)"
  shows "\<exists>rms. trace (snd (snd (try_statement w lang fid s c))) =
            trace c1 @ [Print e, EditText Failed] @ rms \<and> (\<forall>ev\<in>set rms. is_removal ev)"
proof -
  let ?c2 = "c1\<lparr>trace := trace c1 @ [Print e, EditText Failed]\<rparr>"
  obtain rms where "trace (snd (snd (finally_clause w s ?c2))) = trace ?c2 @ rms"
      "\<forall>ev\<in>set rms. is_removal ev"
    using finally_clause_trace by blast
  then show ?thesis
    by (simp add: try_statement_raises_rest [OF assms])
qed

lemma try_statement_trace_returns:
  assumes "try_body w lang fid c = (Inr u, c1)"
  shows "\<exists>rms. trace (snd (snd (try_statement w lang fid s c))) = trace c1 @ rms \<and>
            (\<forall>ev\<in>set rms. is_removal ev)"
  using finally_clause_trace [of w s c1] by (simp add: try_statement_returns_rest [OF assms])

lemma try_statement_trace:
  "\<exists>evs. trace (snd (snd (try_statement w lang fid s c))) =
          trace (snd (try_body w lang fid c)) @ evs"
proof -
  obtain r c1 where body: "try_body w lang fid c = (r, c1)"
    by (cases "try_body w lang fid c")
  show ?thesis
  proof (cases r)
    case (Inl e)
    with body try_statement_trace_raises [of w lang fid c e c1 s] show ?thesis
      by auto
  next
    case (Inr u)
    with body try_statement_trace_returns [of w lang fid c u c1 s] show ?thesis
      by auto
  qed
qed

lemma process_enters:
  assumes "item (split CHR ''_'' cb_data) 1 = Inr lang"
    and "answer w = Inr ()" and "edit_text w (Accepted lang) = Inr ()"
  shows "process_language_choice w cb_data s fs =
         try_statement w lang (data s ''video_file_id'') s
           (start_cycle fs [Answer, EditText (Accepted lang)])"
  using assms by (simp add: process_language_choice_def get_data_def)

text \<open>
  Both handlers keep the invariant that a waiting session holds a reference, and the
  idle session has it: so, when the runs of the handlers do not interleave, a callback
  is never dispatched to \<^verbatim>\<open>process_language_choice\<close> on a session without a
  reference.
\<close>

lemma idle_has_reference: "has_reference idle"
  by (simp add: has_reference_def idle_def)

lemma handle_video_has_reference:
  "has_reference s \<Longrightarrow> has_reference (fst (snd (handle_video w v s)))"
  by (simp add: has_reference_def handle_video_def update_data_def set_state_def Let_def
        split: sum.split)

lemma process_language_choice_has_reference:
  assumes "has_reference s"
  shows "has_reference (fst (snd (process_language_choice w cb_data s fs)))"
proof -
  have "has_reference (clear s)"
    by (simp add: has_reference_def clear_def)
  with assms have "has_reference (fst (snd (try_statement w lang fid s c)))" for lang fid c
    using try_statement_session [of w lang fid s c] by auto
  with assms show ?thesis
    by (simp add: process_language_choice_def split: sum.split)
qed

section \<open>Properties of \<^verbatim>\<open>process_language_choice\<close>\<close>

text \<open>
  Claim C10. On a session that waits for a language, an exception raised before the
  \<^verbatim>\<open>try\<close> statement leaves the handler uncaught: the \<^verbatim>\<open>IndexError\<close> of callback
  data without an underscore, an exception of \<^verbatim>\<open>callback.answer()\<close>, or an exception
  of the edit that announces the start. The handler raises that exception, no failure
  notice is sent, nothing is printed, no file is touched and the session is the one
  before: it still waits for a language.
\<close>

theorem early_exception_escapes:
  assumes "fsm s = WaitingForLanguageChoice"
    and "(CHR ''_'' \<notin> set cb_data \<and> e = IndexError) \<or>
         (\<exists>lang. item (split CHR ''_'' cb_data) 1 = Inr lang \<and>
            (answer w = Inl e \<or> (answer w = Inr () \<and> edit_text w (Accepted lang) = Inl e)))"
  shows "fst (process_language_choice w cb_data s fs) = Inl e \<and>
         fst (snd (process_language_choice w cb_data s fs)) = s \<and>
         fsm (fst (snd (process_language_choice w cb_data s fs))) = WaitingForLanguageChoice \<and>
         EditText Failed \<notin> set (trace (snd (snd (process_language_choice w cb_data s fs)))) \<and>
         (\<forall>x. Print x \<notin> set (trace (snd (snd (process_language_choice w cb_data s fs))))) \<and>
         files (snd (snd (process_language_choice w cb_data s fs))) = fs"
  using assms(2)
proof (elim disjE conjE exE)
  assume "CHR ''_'' \<notin> set cb_data" and "e = IndexError"
  then have "item (split CHR ''_'' cb_data) 1 = Inl e"
    using item_split_no_sep [of "CHR ''_''" cb_data] by simp
  then show ?thesis
    using assms(1) by (simp add: process_language_choice_def start_cycle_def)
next
  fix lang
  assume "item (split CHR ''_'' cb_data) 1 = Inr lang" and "answer w = Inl e"
  then show ?thesis
    using assms(1) by (simp add: process_language_choice_def start_cycle_def)
next
  fix lang
  assume "item (split CHR ''_'' cb_data) 1 = Inr lang" and "answer w = Inr ()"
    and "edit_text w (Accepted lang) = Inl e"
  then show ?thesis
    using assms(1) by (simp add: process_language_choice_def start_cycle_def)
qed

theorem early_exception_escapes_witness:
  "fsm pending = WaitingForLanguageChoice \<and>
   CHR ''_'' \<notin> set ''langen'' \<and>
   process_language_choice calm ''langen'' pending {} =
     (Inl IndexError, pending, \<lparr>video_path = None, audio_path = None, files = {}, trace = []\<rparr>) \<and>
   item (split CHR ''_'' ''lang_en'') 1 = Inr ''en'' \<and>
   answer deaf = Inl (Error ''timeout'') \<and>
   fst (process_language_choice deaf ''lang_en'' pending {}) = Inl (Error ''timeout'') \<and>
   fst (snd (process_language_choice deaf ''lang_en'' pending {})) = pending \<and>
   EditText Failed \<notin> set (trace (snd (snd (process_language_choice deaf ''lang_en'' pending {}))))"
proof -
  have a: "fsm pending = WaitingForLanguageChoice"
    by (simp add: pending_def)
  have b: "CHR ''_'' \<notin> set ''langen''"
    by simp
  have c: "item (split CHR ''_'' ''lang_en'') 1 = Inr ''en''"
    by (simp add: item_def)
  have d: "answer deaf = Inl (Error ''timeout'')"
    by (simp add: deaf_def calm_def)
  have one: "(CHR ''_'' \<notin> set ''langen'' \<and> IndexError = IndexError) \<or>
         (\<exists>lang. item (split CHR ''_'' ''langen'') 1 = Inr lang \<and>
            (answer calm = Inl IndexError \<or>
             (answer calm = Inr () \<and> edit_text calm (Accepted lang) = Inl IndexError)))"
    using b by simp
  have two: "(CHR ''_'' \<notin> set ''lang_en'' \<and> Error ''timeout'' = IndexError) \<or>
         (\<exists>lang. item (split CHR ''_'' ''lang_en'') 1 = Inr lang \<and>
            (answer deaf = Inl (Error ''timeout'') \<or>
             (answer deaf = Inr () \<and> edit_text deaf (Accepted lang) = Inl (Error ''timeout''))))"
    using c d by blast
  have tr: "trace (snd (snd (process_language_choice calm ''langen'' pending {}))) = []"
    by (simp add: process_language_choice_def item_def start_cycle_def)
  have vp: "video_path (snd (snd (process_language_choice calm ''langen'' pending {}))) = None \<and>
            audio_path (snd (snd (process_language_choice calm ''langen'' pending {}))) = None"
    by (simp add: process_language_choice_def item_def start_cycle_def)
  from early_exception_escapes [OF a one, of "{}"] early_exception_escapes [OF a two, of "{}"]
    a b c d tr vp
  show ?thesis
    by (cases "process_language_choice calm ''langen'' pending {}") (auto simp add: cycle.equality)
qed

text \<open>
  What holds of every cycle in which the body of the \<^verbatim>\<open>try\<close> statement raises \<open>e\<close>:
  \<open>e\<close> is printed, and the failure notice is sent exactly once and is the last text
  put into the message. When neither removal raises, the handler also ends as that
  edit does and the session is cleared.
\<close>

lemma failure_notice_sent:
  assumes "item (split CHR ''_'' cb_data) 1 = Inr lang"
    and "answer w = Inr ()"
    and "edit_text w (Accepted lang) = Inr ()"
    and "fst (try_body w lang (data s ''video_file_id'')
                (start_cycle fs [Answer, EditText (Accepted lang)])) = Inl e"
  shows "Print e \<in> set (trace (snd (snd (process_language_choice w cb_data s fs)))) \<and>
         filter (\<lambda>ev. ev = EditText Failed)
           (trace (snd (snd (process_language_choice w cb_data s fs)))) = [EditText Failed] \<and>
         last (edits (trace (snd (snd (process_language_choice w cb_data s fs))))) = Failed"
proof -
  let ?c0 = "start_cycle fs [Answer, EditText (Accepted lang)]"
  let ?fid = "data s ''video_file_id''"
  let ?R = "process_language_choice w cb_data s fs"
  obtain c1 where body: "try_body w lang ?fid ?c0 = (Inl e, c1)"
    using assms(4) by (cases "try_body w lang ?fid ?c0") simp
  have run: "?R = try_statement w lang ?fid s ?c0"
    by (rule process_enters [OF assms(1-3)])
  obtain evs where evs: "trace c1 = trace ?c0 @ evs"
      "\<forall>ev\<in>set evs. ev \<noteq> EditText Failed \<and> (\<forall>x. ev \<noteq> Print x) \<and> \<not> is_removal ev"
    using try_body_quiet [of w lang ?fid] body unfolding emits_def by (metis snd_conv)
  obtain rms where rms: "trace (snd (snd ?R)) = trace c1 @ [Print e, EditText Failed] @ rms"
      "\<forall>ev\<in>set rms. is_removal ev"
    using try_statement_trace_raises [OF body, of s] run by auto
  have tr: "trace (snd (snd ?R)) =
            [Answer, EditText (Accepted lang)] @ evs @ [Print e, EditText Failed] @ rms"
    using evs(1) rms(1) by (simp add: start_cycle_def)
  have f1: "filter (\<lambda>ev. ev = EditText Failed) evs = []"
    using evs(2) by (simp add: filter_empty_conv)
  have f2: "filter (\<lambda>ev. ev = EditText Failed) rms = []"
    using rms(2) by (auto simp add: filter_empty_conv)
  have e2: "edits rms = []"
    using rms(2) by (rule edits_removals)
  show ?thesis
    using tr f1 f2 e2 by (simp add: edits_append)
qed

lemma failure_then_cleared:
  assumes "item (split CHR ''_'' cb_data) 1 = Inr lang"
    and "answer w = Inr ()"
    and "edit_text w (Accepted lang) = Inr ()"
    and "fst (try_body w lang (data s ''video_file_id'')
                (start_cycle fs [Answer, EditText (Accepted lang)])) = Inl e"
    and "remove w (''downloads/'' @ fmt (data s ''video_file_id'') @ ''.mp4'') = Inr ()"
    and "remove w (''downloads/'' @ fmt (data s ''video_file_id'') @ ''.mp3'') = Inr ()"
  shows "fst (process_language_choice w cb_data s fs) = edit_text w Failed \<and>
         fst (snd (process_language_choice w cb_data s fs)) = clear s"
proof -
  let ?c0 = "start_cycle fs [Answer, EditText (Accepted lang)]"
  let ?fid = "data s ''video_file_id''"
  let ?vp = "''downloads/'' @ fmt ?fid @ ''.mp4''"
  let ?ap = "''downloads/'' @ fmt ?fid @ ''.mp3''"
  let ?R = "process_language_choice w cb_data s fs"
  obtain c1 where body: "try_body w lang ?fid ?c0 = (Inl e, c1)"
    using assms(4) by (cases "try_body w lang ?fid ?c0") simp
  let ?c2 = "c1\<lparr>trace := trace c1 @ [Print e, EditText Failed]\<rparr>"
  have run: "?R = try_statement w lang ?fid s ?c0"
    by (rule process_enters [OF assms(1-3)])
  have fin: "fst (finally_clause w s ?c2) = Inr () \<and> fst (snd (finally_clause w s ?c2)) = clear s"
  proof (cases "get_file w ?fid")
    case (Inl e')
    then have "try_body w lang ?fid ?c0 = (Inl e', ?c0\<lparr>trace := trace ?c0 @ [GetFile ?fid]\<rparr>)"
      by (rule try_body_lookup_raises)
    with body have "video_path ?c2 = None" "audio_path ?c2 = None"
      by (auto simp add: start_cycle_def)
    then show ?thesis
      by (simp add: finally_clause_no_paths)
  next
    case (Inr p)
    from try_body_paths [OF Inr, of lang ?c0] body
    have "video_path ?c2 = Some ?vp" "audio_path ?c2 = Some ?ap"
      by simp_all
    then show ?thesis
      using finally_clause_removes [of ?c2 ?vp ?ap w s] assms(5,6) by simp
  qed
  show ?thesis
    using run fin try_statement_raises [OF body, of s]
    by (cases "finally_clause w s ?c2") auto
qed

text \<open>
  Claim C3 says that an exception raised by the download, the extraction, the
  recognition or the translation is caught, logged, reported as the one failure notice,
  and that the session is cleared afterwards. \<open>failure_notice_sent\<close> and
  \<open>failure_then_cleared\<close> give all of it for the runs in which no removal raises.
  The clearing is missed when \<^verbatim>\<open>os.remove\<close> raises, since \<^verbatim>\<open>state.clear()\<close> is the
  last line of the \<^verbatim>\<open>finally\<close> clause. In the run below the clip has no audio track:
  line 106 raises, line 107 never closes the clip, the failure notice is sent, the
  removal of the video file raises, and the handler ends with that exception while the
  session still waits for a language with its reference and the file is still on disk.
\<close>

theorem cleanup_exception_skips_clear:
  "process_language_choice locked ''lang_en'' pending {} =
     (Inl (Error ''in use''), pending,
      \<lparr>video_path = Some ''downloads/abc.mp4'', audio_path = Some ''downloads/abc.mp3'',
       files = {''downloads/abc.mp4''},
       trace = [Answer, EditText (Accepted ''en''), GetFile (Some ''abc''),
                MakeDirs ''downloads'',
                DownloadFile ''videos/file_7.mp4'' ''downloads/abc.mp4'',
                OpenClip ''downloads/abc.mp4'', Print AttributeError, EditText Failed,
                Remove ''downloads/abc.mp4'']\<rparr>)"
  by (simp add: run_defs locked_def calm_def pending_def)




text \<open>
  Claim C2, as amended. On a session without a file reference, a cycle that has
  reached the \<^verbatim>\<open>try\<close> statement still calls \<^verbatim>\<open>bot.get_file\<close>, with \<^verbatim>\<open>None\<close>. When
  that call raises, nothing else is called but the print and the failure notice: no
  download, no file written, the session cleared. When it returns a path (and the
  directory can be made), the download to \<^verbatim>\<open>downloads/None.mp4\<close> is called.
\<close>

theorem lookup_without_reference:
  assumes "data s ''video_file_id'' = None"
    and "item (split CHR ''_'' cb_data) 1 = Inr lang"
    and "answer w = Inr ()"
    and "edit_text w (Accepted lang) = Inr ()"
  shows "GetFile None \<in> set (trace (snd (snd (process_language_choice w cb_data s fs)))) \<and>
         (\<forall>e. get_file w None = Inl e \<longrightarrow>
            process_language_choice w cb_data s fs =
              (edit_text w Failed, clear s,
               \<lparr>video_path = None, audio_path = None, files = fs,
                trace = [Answer, EditText (Accepted lang), GetFile None, Print e, EditText Failed]\<rparr>)) \<and>
         (\<forall>p. get_file w None = Inr p \<and> makedirs w ''downloads'' = Inr () \<longrightarrow>
            DownloadFile p ''downloads/None.mp4''
              \<in> set (trace (snd (snd (process_language_choice w cb_data s fs)))))"
proof -
  let ?c0 = "start_cycle fs [Answer, EditText (Accepted lang)]"
  let ?R = "process_language_choice w cb_data s fs"
  have run: "?R = try_statement w lang None s ?c0"
    using process_enters [OF assms(2-4), of s fs] assms(1) by simp
  obtain evs where evs: "trace (snd (try_body w lang None ?c0)) = trace ?c0 @ GetFile None # evs"
    using try_body_starts by blast
  obtain evs' where evs': "trace (snd (snd ?R)) = trace (snd (try_body w lang None ?c0)) @ evs'"
    using try_statement_trace run by metis
  have first: "GetFile None \<in> set (trace (snd (snd ?R)))"
    using evs evs' by simp
  have second: "?R = (edit_text w Failed, clear s,
      \<lparr>video_path = None, audio_path = None, files = fs,
       trace = [Answer, EditText (Accepted lang), GetFile None, Print e, EditText Failed]\<rparr>)"
    if "get_file w None = Inl e" for e
  proof -
    have "try_body w lang None ?c0 = (Inl e, ?c0\<lparr>trace := trace ?c0 @ [GetFile None]\<rparr>)"
      using that by (rule try_body_lookup_raises)
    then show ?thesis
      using run by (simp add: try_statement_raises finally_clause_no_paths start_cycle_def)
  qed
  have third: "DownloadFile p ''downloads/None.mp4'' \<in> set (trace (snd (snd ?R)))"
    if "get_file w None = Inr p" and "makedirs w ''downloads'' = Inr ()" for p
  proof -
    have "DownloadFile p ''downloads/None.mp4'' \<in> set (trace (snd (try_body w lang None ?c0)))"
      unfolding try_body_def Let_def
      apply (simp add: bind_call_returns [OF that(1)] bind_call_returns [OF that(2)]
               bind_assign_paths_eq fmt_def)
      apply (rule bind_call_writing_member [where P = "\<lambda>ev. True"])
      apply (intro emits_bind emits_call emits_call_writing emits_raise emits_if TrueI)
      done
    with evs' show ?thesis by simp
  qed
  from first second third show ?thesis by blast
qed

theorem lookup_without_reference_witness:
  "data orphan ''video_file_id'' = None \<and>
   item (split CHR ''_'' ''lang_en'') 1 = Inr ''en'' \<and>
   answer strict = Inr () \<and>
   edit_text strict (Accepted ''en'') = Inr () \<and>
   get_file strict None = Inl (Error ''validation'') \<and>
   GetFile None \<in> set (trace (snd (snd (process_language_choice strict ''lang_en'' orphan {})))) \<and>
   process_language_choice strict ''lang_en'' orphan {} =
     (Inr (), idle,
      \<lparr>video_path = None, audio_path = None, files = {},
       trace = [Answer, EditText (Accepted ''en''), GetFile None,
                Print (Error ''validation''), EditText Failed]\<rparr>)"
proof -
  have a: "data orphan ''video_file_id'' = None"
    by (simp add: orphan_def)
  have b: "item (split CHR ''_'' ''lang_en'') 1 = Inr ''en''"
    by (simp add: item_def)
  have c: "answer strict = Inr ()"
    by (simp add: strict_def calm_def)
  have d: "edit_text strict (Accepted ''en'') = Inr ()"
    by (simp add: strict_def calm_def)
  have e: "get_file strict None = Inl (Error ''validation'')"
    by (simp add: strict_def calm_def)
  have f: "edit_text strict Failed = Inr ()"
    by (simp add: strict_def calm_def)
  have g: "clear orphan = idle"
    by (simp add: clear_def orphan_def idle_def)
  from lookup_without_reference [OF a b c d, of "{}"] a b c d e f g show ?thesis
    by simp
qed

text \<open>
  The call is made even in a world whose lookup refuses \<^verbatim>\<open>None\<close>: \<open>GetFile None\<close>
  is in the trace.
\<close>

theorem lookup_without_reference_counterexample:
  "GetFile None \<in> set (trace (snd (snd (process_language_choice strict ''lang_en'' orphan {}))))"
  by (simp add: run_defs strict_def calm_def orphan_def)

text \<open>
  Claim C6. In a cycle whose recogniser returns a transcript that is empty or has only
  white space, no call goes to the translator. When the stages before the recognition
  succeed, the body of the \<^verbatim>\<open>try\<close> statement ends with the edit that reports that no
  speech was found, and the texts put into the message are the start notice and then
  that report (followed by the failure notice only if that edit itself raises).
\<close>

theorem blank_transcript_short_circuit:
  fixes w cb_data s fs lang t
  defines "fid \<equiv> data s ''video_file_id''"
  defines "vp \<equiv> ''downloads/'' @ fmt fid @ ''.mp4''"
  defines "ap \<equiv> ''downloads/'' @ fmt fid @ ''.mp3''"
  defines "R \<equiv> process_language_choice w cb_data s fs"
  assumes "item (split CHR ''_'' cb_data) 1 = Inr lang"
    and "answer w = Inr ()"
    and "edit_text w (Accepted lang) = Inr ()"
    and "transcribe w ap lang = Inr t"
    and "\<forall>c\<in>set t. isspace c"
  shows "(\<forall>ev\<in>set (trace (snd (snd R))). \<not> is_translation ev) \<and>
         (\<forall>p. get_file w fid = Inr p \<and> makedirs w ''downloads'' = Inr () \<and>
              fst (download_file w p vp) = Inr () \<and> VideoFileClip w vp = Inr True \<and>
              fst (write_audiofile w ap) = Inr () \<and> close_clip w = Inr () \<longrightarrow>
            fst (try_body w lang fid (start_cycle fs [Answer, EditText (Accepted lang)]))
              = edit_text w NoSpeech \<and>
            edits (trace (snd (snd R))) =
              Accepted lang # NoSpeech #
                (case edit_text w NoSpeech of Inl e \<Rightarrow> [Failed] | Inr u \<Rightarrow> []))"
proof -
  let ?c0 = "start_cycle fs [Answer, EditText (Accepted lang)]"
  have blank: "strip t = []"
    using assms(9) by (simp add: strip_Nil_iff)
  have run: "R = try_statement w lang fid s ?c0"
    unfolding R_def fid_def by (rule process_enters [OF assms(5-7)])
  have removal: "\<not> is_translation ev" if "is_removal ev" for ev
    using that by (cases ev) simp_all
  obtain r c1 where body: "try_body w lang fid ?c0 = (r, c1)"
    by (cases "try_body w lang fid ?c0")
  have "emits (\<lambda>ev. \<not> is_translation ev) (try_body w lang fid)"
    using assms(8) blank unfolding ap_def by (intro try_body_emits) simp_all
  then obtain evs where evs: "trace c1 = trace ?c0 @ evs" "\<forall>ev\<in>set evs. \<not> is_translation ev"
    using body unfolding emits_def by (metis snd_conv)
  have quiet: "\<forall>ev\<in>set (trace (snd (snd R))). \<not> is_translation ev"
  proof (cases r)
    case (Inl e)
    obtain rms where rms: "trace (snd (snd R)) = trace c1 @ [Print e, EditText Failed] @ rms"
        "\<forall>ev\<in>set rms. is_removal ev"
      using try_statement_trace_raises [of w lang fid ?c0 e c1 s] body Inl run by auto
    from rms(2) removal have "\<forall>ev\<in>set rms. \<not> is_translation ev" by blast
    with rms(1) evs show ?thesis
      by (auto simp add: start_cycle_def)
  next
    case (Inr u)
    obtain rms where rms: "trace (snd (snd R)) = trace c1 @ rms" "\<forall>ev\<in>set rms. is_removal ev"
      using try_statement_trace_returns [of w lang fid ?c0 u c1 s] body Inr run by auto
    from rms(2) removal have "\<forall>ev\<in>set rms. \<not> is_translation ev" by blast
    with rms(1) evs show ?thesis
      by (auto simp add: start_cycle_def)
  qed
  have reached: "fst (try_body w lang fid ?c0) = edit_text w NoSpeech \<and>
            edits (trace (snd (snd R))) =
              Accepted lang # NoSpeech #
                (case edit_text w NoSpeech of Inl e \<Rightarrow> [Failed] | Inr u \<Rightarrow> [])"
    if h: "get_file w fid = Inr p" "makedirs w ''downloads'' = Inr ()"
      "fst (download_file w p vp) = Inr ()" "VideoFileClip w vp = Inr True"
      "fst (write_audiofile w ap) = Inr ()" "close_clip w = Inr ()" for p
  proof -
    have "\<exists>c1'. try_body w lang fid ?c0 = (edit_text w NoSpeech, c1') \<and>
            edits (trace c1') = [Accepted lang, NoSpeech]"
      using h assms(8) blank unfolding vp_def ap_def
      by (simp add: try_body_def step_defs Let_def start_cycle_def)
    then obtain c1' where b1: "try_body w lang fid ?c0 = (edit_text w NoSpeech, c1')"
        and b2: "edits (trace c1') = [Accepted lang, NoSpeech]"
      by blast
    show ?thesis
    proof (cases "edit_text w NoSpeech")
      case (Inl e)
      obtain rms where rms: "trace (snd (snd R)) = trace c1' @ [Print e, EditText Failed] @ rms"
          "\<forall>ev\<in>set rms. is_removal ev"
        using try_statement_trace_raises [of w lang fid ?c0 e c1' s] b1 Inl run by auto
      from rms(2) have "edits rms = []" by (rule edits_removals)
      with Inl b1 b2 rms(1) show ?thesis
        by (simp add: edits_append)
    next
      case (Inr u)
      obtain rms where rms: "trace (snd (snd R)) = trace c1' @ rms" "\<forall>ev\<in>set rms. is_removal ev"
        using try_statement_trace_returns [of w lang fid ?c0 u c1' s] b1 Inr run by auto
      from rms(2) have "edits rms = []" by (rule edits_removals)
      with Inr b1 b2 rms(1) show ?thesis
        by (simp add: edits_append)
    qed
  qed
  from quiet reached show ?thesis by blast
qed

theorem blank_transcript_short_circuit_witness:
  "item (split CHR ''_'' ''lang_en'') 1 = Inr ''en'' \<and>
   answer silent = Inr () \<and>
   edit_text silent (Accepted ''en'') = Inr () \<and>
   transcribe silent ''downloads/abc.mp3'' ''en'' = Inr [32, 10] \<and>
   isspace 32 \<and> isspace 10 \<and>
   filter is_translation
     (trace (snd (snd (process_language_choice silent ''lang_en'' pending {})))) = [] \<and>
   fst (try_body silent ''en'' (Some ''abc'') (start_cycle {} [Answer, EditText (Accepted ''en'')]))
     = Inr () \<and>
   edits (trace (snd (snd (process_language_choice silent ''lang_en'' pending {})))) =
     [Accepted ''en'', NoSpeech]"
proof -
  have a: "item (split CHR ''_'' ''lang_en'') 1 = Inr ''en''"
    by (simp add: item_def)
  have b: "answer silent = Inr ()"
    by (simp add: silent_def calm_def)
  have c: "edit_text silent (Accepted ''en'') = Inr ()"
    by (simp add: silent_def calm_def)
  have f: "fmt (data pending ''video_file_id'') = ''abc''"
    by (simp add: fmt_def pending_def)
  have f': "data pending ''video_file_id'' = Some ''abc''"
    by (simp add: pending_def)
  have d: "transcribe silent (''downloads/'' @ fmt (data pending ''video_file_id'') @ ''.mp3'') ''en''
             = Inr [32, 10]"
    by (simp add: silent_def calm_def)
  have e: "\<forall>c\<in>set [32, 10]. isspace c"
    by (simp add: isspace_def)
  have g: "get_file silent (data pending ''video_file_id'') = Inr ''videos/file_7.mp4'' \<and>
           makedirs silent ''downloads'' = Inr () \<and>
           fst (download_file silent ''videos/file_7.mp4''
                  (''downloads/'' @ fmt (data pending ''video_file_id'') @ ''.mp4'')) = Inr () \<and>
           VideoFileClip silent (''downloads/'' @ fmt (data pending ''video_file_id'') @ ''.mp4'') = Inr True \<and>
           fst (write_audiofile silent (''downloads/'' @ fmt (data pending ''video_file_id'') @ ''.mp3'')) = Inr () \<and>
           close_clip silent = Inr ()"
    by (simp add: silent_def calm_def)
  have h: "edit_text silent NoSpeech = Inr ()"
    by (simp add: silent_def calm_def)
  from blank_transcript_short_circuit [OF a b c d e, of "{}"] g
  have "(\<forall>ev\<in>set (trace (snd (snd (process_language_choice silent ''lang_en'' pending {})))).
           \<not> is_translation ev) \<and>
        fst (try_body silent ''en'' (data pending ''video_file_id'')
               (start_cycle {} [Answer, EditText (Accepted ''en'')])) = edit_text silent NoSpeech \<and>
        edits (trace (snd (snd (process_language_choice silent ''lang_en'' pending {})))) =
          Accepted ''en'' # NoSpeech #
            (case edit_text silent NoSpeech of Inl e \<Rightarrow> [Failed] | Inr u \<Rightarrow> [])"
    by blast
  with a b c d e f f' h show ?thesis
    by (simp add: filter_empty_conv)
qed

text \<open>
  Claim C8, as amended. For callback data with an underscore, the language code is the
  piece between the first underscore and the next one (up to the end when there is no
  second underscore, and then it is all that follows the first underscore). No
  membership in a fixed set of codes is checked: whatever the code is, it is the
  language given to the recogniser and, for a transcript that is not blank, the source
  language of the translator, once the earlier stages have succeeded.
\<close>

theorem language_code_passed_through:
  fixes w cb_data s fs
  defines "fid \<equiv> data s ''video_file_id''"
  defines "vp \<equiv> ''downloads/'' @ fmt fid @ ''.mp4''"
  defines "ap \<equiv> ''downloads/'' @ fmt fid @ ''.mp3''"
  defines "lang \<equiv> takeWhile (\<lambda>c. c \<noteq> CHR ''_'') (after_first_underscore cb_data)"
  defines "R \<equiv> process_language_choice w cb_data s fs"
  assumes "CHR ''_'' \<in> set cb_data"
  shows "item (split CHR ''_'' cb_data) 1 = Inr lang \<and>
         (CHR ''_'' \<notin> set (after_first_underscore cb_data) \<longrightarrow> lang = after_first_underscore cb_data) \<and>
         (\<forall>p. answer w = Inr () \<and> edit_text w (Accepted lang) = Inr () \<and>
              get_file w fid = Inr p \<and> makedirs w ''downloads'' = Inr () \<and>
              fst (download_file w p vp) = Inr () \<and> VideoFileClip w vp = Inr True \<and>
              fst (write_audiofile w ap) = Inr () \<and> close_clip w = Inr () \<longrightarrow>
            Transcribe ap lang \<in> set (trace (snd (snd R))) \<and>
            (\<forall>t. transcribe w ap lang = Inr t \<and> strip t \<noteq> [] \<longrightarrow>
               NewTranslator lang ''ru'' \<in> set (trace (snd (snd R)))))"
proof -
  let ?c0 = "start_cycle fs [Answer, EditText (Accepted lang)]"
  have code: "item (split CHR ''_'' cb_data) 1 = Inr lang"
    unfolding lang_def after_first_underscore_def using assms(6) by (rule item_split_sep)
  have whole: "lang = after_first_underscore cb_data"
    if "CHR ''_'' \<notin> set (after_first_underscore cb_data)"
    unfolding lang_def using that by (auto simp add: takeWhile_eq_all_conv)
  have passed: "Transcribe ap lang \<in> set (trace (snd (snd R))) \<and>
            (\<forall>t. transcribe w ap lang = Inr t \<and> strip t \<noteq> [] \<longrightarrow>
               NewTranslator lang ''ru'' \<in> set (trace (snd (snd R))))"
    if h: "answer w = Inr ()" "edit_text w (Accepted lang) = Inr ()"
      "get_file w fid = Inr p" "makedirs w ''downloads'' = Inr ()"
      "fst (download_file w p vp) = Inr ()" "VideoFileClip w vp = Inr True"
      "fst (write_audiofile w ap) = Inr ()" "close_clip w = Inr ()" for p
  proof -
    have run: "R = try_statement w lang fid s ?c0"
      unfolding R_def fid_def by (rule process_enters [OF code h(1,2)])
    obtain evs' where evs': "trace (snd (snd R)) = trace (snd (try_body w lang fid ?c0)) @ evs'"
      using try_statement_trace run by metis
    have one: "Transcribe ap lang \<in> set (trace (snd (try_body w lang fid ?c0)))"
      using h(3-8) unfolding vp_def ap_def try_body_def Let_def
      apply (simp add: bind_call_returns bind_call_writing_returns bind_assign_paths_eq
               split del: if_split)
      apply (rule bind_call_member [where P = "\<lambda>ev. True"])
      apply (intro emits_bind emits_call emits_if TrueI)
      done
    have two: "NewTranslator lang ''ru'' \<in> set (trace (snd (try_body w lang fid ?c0)))"
      if "transcribe w ap lang = Inr t" "strip t \<noteq> []" for t
      using h(3-8) that unfolding vp_def ap_def try_body_def Let_def
      apply (simp add: bind_call_returns bind_call_writing_returns bind_assign_paths_eq
               split del: if_split)
      apply (rule bind_call_member [where P = "\<lambda>ev. True"])
      apply (intro emits_bind emits_call emits_if TrueI)
      done
    from one two evs' show ?thesis by simp
  qed
  from code whole passed show ?thesis by blast
qed

theorem language_code_passed_through_witness:
  "CHR ''_'' \<in> set ''lang_fr'' \<and>
   item (split CHR ''_'' ''lang_fr'') 1 = Inr ''fr'' \<and>
   Transcribe ''downloads/abc.mp3'' ''fr''
     \<in> set (trace (snd (snd (process_language_choice calm ''lang_fr'' pending {})))) \<and>
   NewTranslator ''fr'' ''ru''
     \<in> set (trace (snd (snd (process_language_choice calm ''lang_fr'' pending {}))))"
proof -
  have a: "CHR ''_'' \<in> set ''lang_fr''"
    by simp
  have l: "takeWhile (\<lambda>c. c \<noteq> CHR ''_'') (after_first_underscore ''lang_fr'') = ''fr''"
    by (simp add: after_first_underscore_def)
  have f: "fmt (data pending ''video_file_id'') = ''abc''"
    by (simp add: fmt_def pending_def)
  have g: "answer calm = Inr () \<and> edit_text calm (Accepted ''fr'') = Inr () \<and>
           get_file calm (data pending ''video_file_id'') = Inr ''videos/file_7.mp4'' \<and>
           makedirs calm ''downloads'' = Inr () \<and>
           fst (download_file calm ''videos/file_7.mp4'' ''downloads/abc.mp4'') = Inr () \<and>
           VideoFileClip calm ''downloads/abc.mp4'' = Inr True \<and>
           fst (write_audiofile calm ''downloads/abc.mp3'') = Inr () \<and>
           close_clip calm = Inr ()"
    by (simp add: calm_def)
  have t: "transcribe calm ''downloads/abc.mp3'' ''fr'' = Inr [72, 105] \<and> strip [72, 105] \<noteq> []"
    by (simp add: calm_def strip_def isspace_def)
  from language_code_passed_through [OF a, of calm pending "{}"]
  have "item (split CHR ''_'' ''lang_fr'') 1 = Inr ''fr'' \<and>
        (\<forall>p. answer calm = Inr () \<and> edit_text calm (Accepted ''fr'') = Inr () \<and>
              get_file calm (data pending ''video_file_id'') = Inr p \<and>
              makedirs calm ''downloads'' = Inr () \<and>
              fst (download_file calm p ''downloads/abc.mp4'') = Inr () \<and>
              VideoFileClip calm ''downloads/abc.mp4'' = Inr True \<and>
              fst (write_audiofile calm ''downloads/abc.mp3'') = Inr () \<and>
              close_clip calm = Inr () \<longrightarrow>
            Transcribe ''downloads/abc.mp3'' ''fr''
              \<in> set (trace (snd (snd (process_language_choice calm ''lang_fr'' pending {})))) \<and>
            (\<forall>t. transcribe calm ''downloads/abc.mp3'' ''fr'' = Inr t \<and> strip t \<noteq> [] \<longrightarrow>
               NewTranslator ''fr'' ''ru''
                 \<in> set (trace (snd (snd (process_language_choice calm ''lang_fr'' pending {}))))))"
    by (simp add: l f)
  with a g t show ?thesis
    by blast
qed

text \<open>
  With two underscores the code is not what follows the first: for
  \<^verbatim>\<open>lang_en_US\<close> the recogniser is called with \<^verbatim>\<open>en\<close>, not with \<^verbatim>\<open>en_US\<close>.
\<close>

theorem language_code_counterexample:
  "item (split CHR ''_'' ''lang_en_US'') 1 \<noteq> Inr (after_first_underscore ''lang_en_US'') \<and>
   Transcribe ''downloads/abc.mp3'' (after_first_underscore ''lang_en_US'')
     \<notin> set (trace (snd (snd (process_language_choice calm ''lang_en_US'' pending {})))) \<and>
   Transcribe ''downloads/abc.mp3'' ''en''
     \<in> set (trace (snd (snd (process_language_choice calm ''lang_en_US'' pending {}))))"
  by (simp add: run_defs after_first_underscore_def calm_def pending_def strip_def isspace_def)

end
